theory Spec2Isabelle
  imports Main "HOL-Library.Word"
begin

section \<open>Tile areas and tile iterators of map/tilearea.h\<close>

text \<open>
  The development embeds \<^verbatim>\<open>src/src/map/tilearea.h\<close>: the struct \<^verbatim>\<open>TileArea\<close>, the
  iterator base class \<^verbatim>\<open>TileIterator\<close> with its \<^verbatim>\<open>operator ++\<close>, the class
  \<^verbatim>\<open>OrthogonalTileIterator\<close> with its constructor and \<^verbatim>\<open>Next\<close>, the two \<^verbatim>\<open>Clone\<close>
  overrides and the macro \<^verbatim>\<open>TILE_AREA_LOOP\<close>. C++ \<^verbatim>\<open>uint\<close> and \<^verbatim>\<open>TileIndex\<close> are 32-bit
  words, \<^verbatim>\<open>uint16\<close> and \<^verbatim>\<open>uint8\<close> are 16-bit and 8-bit words; all arithmetic wraps.
\<close>

subsection \<open>Machine integers\<close>

type_synonym uint = "32 word"
type_synonym uint8 = "8 word"
type_synonym uint16 = "16 word"
type_synonym TileIndex = "32 word"

subsection \<open>Grid addressing (the header coord.h, which tilearea.h includes)\<close>

text \<open>
  The dimensions of the map are global state of the program; every function that reads
  them takes them as the parameter \<open>md\<close>.
\<close>

record map_dims =
  MapSizeX :: uint
  MapSizeY :: uint

text \<open>
  Modelled from the spec: the constant \<^verbatim>\<open>INVALID_TILE\<close> of coord.h is missing. The spec
  reserves one value of the linear index for "no cell"; it is the all-ones index
  \<^verbatim>\<open>(TileIndex)-1\<close>.
\<close>

definition INVALID_TILE :: TileIndex where
  "INVALID_TILE = - 1"

text \<open>
  Modelled from the spec: \<^verbatim>\<open>TileX\<close> of coord.h is missing. It is the x part of the spec's
  \<^verbatim>\<open>decompose(cell) -> (x,y)\<close> for a linear index whose row pitch is the map width.
\<close>

definition TileX :: "map_dims \<Rightarrow> TileIndex \<Rightarrow> uint" where
  "TileX md t = t mod MapSizeX md"

text \<open>
  Modelled from the spec: \<^verbatim>\<open>TileY\<close> of coord.h is missing. It is the y part of the spec's
  \<^verbatim>\<open>decompose(cell) -> (x,y)\<close>.
\<close>

definition TileY :: "map_dims \<Rightarrow> TileIndex \<Rightarrow> uint" where
  "TileY md t = t div MapSizeX md"

text \<open>
  Modelled from the spec: \<^verbatim>\<open>TileXY\<close> of coord.h is missing. It is the spec's
  \<^verbatim>\<open>compose(x,y) -> cell\<close>: consecutive cells of a row are consecutive indices and the
  rows follow each other at the row pitch.
\<close>

definition TileXY :: "map_dims \<Rightarrow> uint \<Rightarrow> uint \<Rightarrow> TileIndex" where
  "TileXY md x y = y * MapSizeX md + x"

text \<open>
  Modelled from the spec: \<^verbatim>\<open>TileDiffXY\<close> of coord.h is missing. It is the spec's
  "linear-index delta" of a move by \<open>(x, y)\<close> cells; as a 32-bit pattern the signed
  result of the source and this unsigned one agree.
\<close>

definition TileDiffXY :: "map_dims \<Rightarrow> uint \<Rightarrow> uint \<Rightarrow> uint" where
  "TileDiffXY md x y = y * MapSizeX md + x"

text \<open>
  Modelled from the spec: the macro \<^verbatim>\<open>TILE_ADDXY\<close> of coord.h is missing. It adds the
  linear-index delta of \<open>(x, y)\<close> to a tile index, which is how the spec's
  \<^verbatim>\<open>GetCenterTile\<close> reaches "the cell at (x0 + width/2, y0 + height/2)".
\<close>

definition TILE_ADDXY :: "map_dims \<Rightarrow> TileIndex \<Rightarrow> uint \<Rightarrow> uint \<Rightarrow> TileIndex" where
  "TILE_ADDXY md t x y = t + TileDiffXY md x y"

text \<open>
  Modelled from the spec: \<^verbatim>\<open>ClampU\<close> is missing. It is the spec's scalar
  \<^verbatim>\<open>clamp(value, lo, hi) -> value\<close> on unsigned integers.
\<close>

definition ClampU :: "uint \<Rightarrow> uint \<Rightarrow> uint \<Rightarrow> uint" where
  "ClampU a lo hi = (if a \<le> lo then lo else if hi \<le> a then hi else a)"

subsection \<open>TileArea\<close>

record TileArea =
  tile :: TileIndex
  w :: uint16
  h :: uint16

text \<open>
  \<^verbatim>\<open>TileArea() {}\<close> writes to no field: the object keeps whatever its storage held
  before. The model takes the previous content of the storage and returns it.
\<close>

definition TileArea_default :: "TileArea \<Rightarrow> TileArea" where
  "TileArea_default storage = storage"

text \<open>
  \<^verbatim>\<open>TileArea(TileIndex tile, uint8 w, uint8 h) : tile(tile), w(w), h(h) {}\<close>: the
  8-bit parameters are widened into the 16-bit fields.
\<close>

definition TileArea_init :: "TileIndex \<Rightarrow> uint8 \<Rightarrow> uint8 \<Rightarrow> TileArea" where
  "TileArea_init t w8 h8 = \<lparr>TileArea.tile = t, w = ucast w8, h = ucast h8\<rparr>"

text \<open>
  A call of that constructor with arguments of a wider integer type: C++ converts each
  argument to \<^verbatim>\<open>uint8\<close> first.
\<close>

definition TileArea_init_call :: "TileIndex \<Rightarrow> 'a::len word \<Rightarrow> 'b::len word \<Rightarrow> TileArea" where
  "TileArea_init_call t wa ha = TileArea_init t (ucast wa) (ucast ha)"

definition Clear :: "TileArea \<Rightarrow> TileArea" where
  "Clear ta = ta\<lparr>TileArea.tile := INVALID_TILE, TileArea.w := 0, h := 0\<rparr>"

definition GetCenterTile :: "map_dims \<Rightarrow> TileArea \<Rightarrow> TileIndex" where
  "GetCenterTile md ta =
     TILE_ADDXY md (TileArea.tile ta) (ucast (TileArea.w ta) div 2) (ucast (h ta) div 2)"

definition get_closest_tile :: "map_dims \<Rightarrow> TileArea \<Rightarrow> TileIndex \<Rightarrow> TileIndex" where
  "get_closest_tile md ta t =
     (if TileArea.tile ta = INVALID_TILE then INVALID_TILE
      else
        let x = TileX md (TileArea.tile ta);
            x = ClampU (TileX md t) x (x + ucast (TileArea.w ta) - 1);
            y = TileY md (TileArea.tile ta);
            y = ClampU (TileY md t) y (y + ucast (h ta) - 1)
        in TileXY md x y)"

subsection \<open>Tile iterators\<close>

text \<open>The two assertions of the header, as error values.\<close>

datatype error = Assert_operator_incr | Assert_Next

record TileIterator =
  tile :: TileIndex

text \<open>
  The fields of \<^verbatim>\<open>DiagonalTileIterator\<close>. Its constructor and its \<^verbatim>\<open>Next\<close> are only
  declared in the header; where a definition below needs \<^verbatim>\<open>Next\<close> of this class it
  takes it as the parameter \<open>dnext\<close>.
\<close>

record DiagonalTileIterator = TileIterator +
  x :: uint
  y :: uint
  odd_area :: bool
  s1 :: "8 word"
  s2x :: "32 word"
  s2y :: "32 word"
  w :: uint
  n :: uint
  m :: uint

record OrthogonalTileIterator = TileIterator +
  w :: uint
  rowdiff :: uint
  x :: uint
  y :: uint

text \<open>\<^verbatim>\<open>operator TileIndex\<close>: the current tile.\<close>

definition current :: "'a TileIterator_scheme \<Rightarrow> TileIndex" where
  "current it = TileIterator.tile it"

text \<open>
  \<^verbatim>\<open>TileIterator::operator ++\<close>. The virtual call \<^verbatim>\<open>this->Next()\<close> is the parameter
  \<open>next\<close>, the \<^verbatim>\<open>Next\<close> of the object's class.
\<close>

definition operator_incr ::
  "('a TileIterator_scheme \<Rightarrow> error + 'a TileIterator_scheme) \<Rightarrow>
   'a TileIterator_scheme \<Rightarrow> error + 'a TileIterator_scheme" where
  "operator_incr next it =
     (if TileIterator.tile it = INVALID_TILE then Inl Assert_operator_incr else next it)"

definition OrthogonalTileIterator_Next ::
  "OrthogonalTileIterator \<Rightarrow> error + OrthogonalTileIterator" where
  "OrthogonalTileIterator_Next it =
     (if TileIterator.tile it = INVALID_TILE then Inl Assert_Next
      else
        let it1 = it\<lparr>x := x it - 1\<rparr> in
        if 0 < x it1 then Inr (it1\<lparr>TileIterator.tile := TileIterator.tile it1 + 1\<rparr>)
        else
          let it2 = it1\<lparr>y := y it1 - 1\<rparr> in
          if 0 < y it2 then
            Inr (it2\<lparr>x := OrthogonalTileIterator.w it2,
                     TileIterator.tile := TileIterator.tile it2 + rowdiff it2\<rparr>)
          else Inr (it2\<lparr>TileIterator.tile := INVALID_TILE\<rparr>))"

definition OrthogonalTileIterator_init :: "map_dims \<Rightarrow> TileArea \<Rightarrow> OrthogonalTileIterator" where
  "OrthogonalTileIterator_init md ta =
     \<lparr>TileIterator.tile =
        (if TileArea.w ta = 0 \<or> h ta = 0 then INVALID_TILE else TileArea.tile ta),
      w = ucast (TileArea.w ta),
      rowdiff = TileDiffXY md 1 1 - ucast (TileArea.w ta),
      x = ucast (TileArea.w ta),
      y = ucast (h ta)\<rparr>"

text \<open>
  The macro \<^verbatim>\<open>TILE_AREA_LOOP(var, ta)\<close>, that is
  \<^verbatim>\<open>for (OrthogonalTileIterator var(ta); var != INVALID_TILE; ++var)\<close>. The body of the loop
  is the caller's; the model records the tile that \<open>var\<close> holds at each pass and returns
  these tiles with the iterator as the loop leaves it. The loop is a total function: each
  advance either makes the current tile invalid or decreases the pair of counters.
\<close>

lemma word_pred_less: "(a::uint) \<noteq> 0 \<Longrightarrow> unat (a - 1) < unat a"
  by (simp add: unat_minus_one unat_gt_0 word_neq_0_conv)

lemma word_pred2_less: "(a::uint) \<noteq> 1 \<Longrightarrow> unat (a - 2) < unat (a - 1)"
  using word_pred_less[of "a - 1"] by simp

definition loop_rank :: "OrthogonalTileIterator \<Rightarrow> nat \<times> nat \<times> nat" where
  "loop_rank it =
     (if TileIterator.tile it = INVALID_TILE then 0 else 1, unat (y it - 1), unat (x it - 1))"

lemma operator_incr_rank:
  assumes "TileIterator.tile it \<noteq> INVALID_TILE"
    and "operator_incr OrthogonalTileIterator_Next it = Inr it'"
  shows "(loop_rank it', loop_rank it) \<in> less_than <*lex*> less_than <*lex*> less_than"
  using assms
  by (auto simp: operator_incr_def OrthogonalTileIterator_Next_def loop_rank_def Let_def
      word_neq_0_conv[symmetric] word_pred2_less split: if_splits)

function iterate_until_invalid ::
  "OrthogonalTileIterator \<Rightarrow> error + (TileIndex list \<times> OrthogonalTileIterator)" where
  "iterate_until_invalid it =
     (if current it = INVALID_TILE then Inr ([], it)
      else case operator_incr OrthogonalTileIterator_Next it of
             Inl e \<Rightarrow> Inl e
           | Inr it' \<Rightarrow>
               (case iterate_until_invalid it' of
                  Inl e \<Rightarrow> Inl e
                | Inr (cs, fin) \<Rightarrow> Inr (current it # cs, fin)))"
  by pat_completeness auto
termination
  by (relation "inv_image (less_than <*lex*> less_than <*lex*> less_than) loop_rank")
     (auto simp: current_def intro: operator_incr_rank[simplified])

declare iterate_until_invalid.simps [simp del]

lemma iterate_done:
  "TileIterator.tile it = INVALID_TILE \<Longrightarrow> iterate_until_invalid it = Inr ([], it)"
  by (subst iterate_until_invalid.simps) (simp add: current_def)

lemma iterate_step:
  assumes "TileIterator.tile it \<noteq> INVALID_TILE"
    and "operator_incr OrthogonalTileIterator_Next it = Inr it'"
    and "iterate_until_invalid it' = Inr (cs, fin)"
  shows "iterate_until_invalid it = Inr (TileIterator.tile it # cs, fin)"
  using assms by (subst iterate_until_invalid.simps) (simp add: current_def)

definition TILE_AREA_LOOP ::
  "map_dims \<Rightarrow> TileArea \<Rightarrow> error + (TileIndex list \<times> OrthogonalTileIterator)" where
  "TILE_AREA_LOOP md ta = iterate_until_invalid (OrthogonalTileIterator_init md ta)"

subsection \<open>Iterator objects on the heap and Clone\<close>

text \<open>
  \<^verbatim>\<open>Clone\<close> returns a pointer to a new object, so the objects live in a store: a list of
  objects whose indices are the addresses. An object is of one of the two classes.
\<close>

datatype iterator_object =
  Orthogonal OrthogonalTileIterator
| Diagonal DiagonalTileIterator

type_synonym heap = "iterator_object list"

text \<open>
  The two overrides of \<^verbatim>\<open>Clone\<close>: each returns a \<^verbatim>\<open>new\<close> object of its own class,
  built by the implicit copy constructor of the class from the object \<^verbatim>\<open>this\<close> points
  to. A pointer that addresses no object gives \<open>None\<close>.
\<close>

definition copy_object :: "iterator_object \<Rightarrow> iterator_object" where
  "copy_object obj = (case obj of Orthogonal it \<Rightarrow> Orthogonal it | Diagonal it \<Rightarrow> Diagonal it)"

definition Clone :: "heap \<Rightarrow> nat \<Rightarrow> (heap \<times> nat) option" where
  "Clone hp p =
     (if p < length hp then Some (hp @ [copy_object (hp ! p)], length hp) else None)"

definition object_current :: "iterator_object \<Rightarrow> TileIndex" where
  "object_current obj = (case obj of Orthogonal it \<Rightarrow> current it | Diagonal it \<Rightarrow> current it)"

text \<open>
  \<^verbatim>\<open>++\<close> on an object: the virtual \<^verbatim>\<open>Next\<close> is chosen by the class of the object;
  \<open>dnext\<close> stands for \<^verbatim>\<open>DiagonalTileIterator::Next\<close>.
\<close>

definition object_incr ::
  "(DiagonalTileIterator \<Rightarrow> error + DiagonalTileIterator) \<Rightarrow>
   iterator_object \<Rightarrow> error + iterator_object" where
  "object_incr dnext obj =
     (case obj of
        Orthogonal it \<Rightarrow> map_sum id Orthogonal (operator_incr OrthogonalTileIterator_Next it)
      | Diagonal it \<Rightarrow> map_sum id Diagonal (operator_incr dnext it))"

text \<open>\<^verbatim>\<open>++\<close> through a pointer: advance the object at address \<open>p\<close> in place.\<close>

definition incr_at ::
  "(DiagonalTileIterator \<Rightarrow> error + DiagonalTileIterator) \<Rightarrow> heap \<Rightarrow> nat \<Rightarrow> error + heap" where
  "incr_at dnext hp p = map_sum id (\<lambda>obj. hp[p := obj]) (object_incr dnext (hp ! p))"

text \<open>
  Advance the object at \<open>p\<close> \<open>k\<close> times, reading the current tile after each advance;
  a failed assertion ends the run.
\<close>

fun advance_n ::
  "(DiagonalTileIterator \<Rightarrow> error + DiagonalTileIterator) \<Rightarrow> nat \<Rightarrow> heap \<Rightarrow> nat \<Rightarrow>
   error + (TileIndex list \<times> heap)" where
  "advance_n dnext 0 hp p = Inr ([], hp)"
| "advance_n dnext (Suc k) hp p =
     (case incr_at dnext hp p of
        Inl e \<Rightarrow> Inl e
      | Inr hp' \<Rightarrow>
          (case advance_n dnext k hp' p of
             Inl e \<Rightarrow> Inl e
           | Inr (cs, hp'') \<Rightarrow> Inr (object_current (hp' ! p) # cs, hp'')))"

text \<open>The same run on one object, outside any store.\<close>

fun object_advance_n ::
  "(DiagonalTileIterator \<Rightarrow> error + DiagonalTileIterator) \<Rightarrow> nat \<Rightarrow> iterator_object \<Rightarrow>
   error + (TileIndex list \<times> iterator_object)" where
  "object_advance_n dnext 0 obj = Inr ([], obj)"
| "object_advance_n dnext (Suc k) obj =
     (case object_incr dnext obj of
        Inl e \<Rightarrow> Inl e
      | Inr obj' \<Rightarrow>
          (case object_advance_n dnext k obj' of
             Inl e \<Rightarrow> Inl e
           | Inr (cs, obj'') \<Rightarrow> Inr (object_current obj' # cs, obj'')))"

subsection \<open>Cells of the map and the rectangle of an area\<close>

text \<open>
  A map has at least one cell, and at most \<open>2 ^ 31\<close>, so that the difference of two tile
  indices fits the signed 32-bit \<^verbatim>\<open>TileIndexDiff\<close> and \<^verbatim>\<open>INVALID_TILE\<close> is no cell.
\<close>

definition map_ok :: "map_dims \<Rightarrow> bool" where
  "map_ok md \<longleftrightarrow>
     0 < MapSizeX md \<and> 0 < MapSizeY md \<and> unat (MapSizeX md) * unat (MapSizeY md) \<le> 2 ^ 31"

definition tile_on_map :: "map_dims \<Rightarrow> TileIndex \<Rightarrow> bool" where
  "tile_on_map md t \<longleftrightarrow> unat t < unat (MapSizeX md) * unat (MapSizeY md)"

text \<open>The rectangle of the area lies on the map.\<close>

definition area_on_map :: "map_dims \<Rightarrow> TileArea \<Rightarrow> bool" where
  "area_on_map md ta \<longleftrightarrow>
     tile_on_map md (TileArea.tile ta) \<and>
     unat (TileX md (TileArea.tile ta)) + unat (TileArea.w ta) \<le> unat (MapSizeX md) \<and>
     unat (TileY md (TileArea.tile ta)) + unat (h ta) \<le> unat (MapSizeY md)"

text \<open>
  The cells of the rectangle in row-major order, as the spec words it: rows from top to
  bottom, and within a row from left to right.
\<close>

definition area_cells :: "map_dims \<Rightarrow> TileArea \<Rightarrow> TileIndex list" where
  "area_cells md ta =
     concat (map (\<lambda>i. map (\<lambda>j. TileXY md (TileX md (TileArea.tile ta) + of_nat j)
                                          (TileY md (TileArea.tile ta) + of_nat i))
                           [0 ..< unat (TileArea.w ta)])
                 [0 ..< unat (h ta)])"

text \<open>The clamp of the spec on the coordinates as numbers.\<close>

definition clamp :: "nat \<Rightarrow> nat \<Rightarrow> nat \<Rightarrow> nat" where
  "clamp v lo hi = max lo (min v hi)"

text \<open>A cell lies inside the rectangle of an area.\<close>

definition inside_area :: "map_dims \<Rightarrow> TileArea \<Rightarrow> TileIndex \<Rightarrow> bool" where
  "inside_area md ta t \<longleftrightarrow>
     unat (TileX md (TileArea.tile ta)) \<le> unat (TileX md t) \<and>
     unat (TileX md t) < unat (TileX md (TileArea.tile ta)) + unat (TileArea.w ta) \<and>
     unat (TileY md (TileArea.tile ta)) \<le> unat (TileY md t) \<and>
     unat (TileY md t) < unat (TileY md (TileArea.tile ta)) + unat (h ta)"

section \<open>Facts about words\<close>

lemma unat_ucast_8_16_up: "unat (ucast (b :: 8 word) :: 16 word) = unat b"
proof -
  have "unat b < 2 ^ 8" using unsigned_less[of b] by simp
  then have "unat b < 2 ^ 16" by simp
  then have "take_bit 16 (unat b) = unat b" by (simp only: take_bit_nat_eq_self)
  moreover have "unat (ucast b :: 16 word) = take_bit 16 (unat b)"
    using unsigned_ucast_eq[of b, where ?'c = 16 and ?'a = nat] by simp
  ultimately show ?thesis by simp
qed

lemma unat_ucast_down_8: "unat (ucast (a::'a::len word) :: 8 word) = unat a mod 256"
  using unsigned_ucast_eq[of a, where ?'c = 8 and ?'a = nat] by (simp add: take_bit_eq_mod)

lemma unat_ucast_8_16:
  "unat (ucast (ucast (a::'a::len word) :: 8 word) :: 16 word) = unat a mod 256"
  by (simp only: unat_ucast_8_16_up unat_ucast_down_8)

section \<open>The empty area\<close>

text \<open>
  Claim C5. An \<^verbatim>\<open>OrthogonalTileIterator\<close> constructed from a \<^verbatim>\<open>TileArea\<close> of width 0 or
  height 0 has the invalid tile as its current tile right after construction, and the
  traversal of \<^verbatim>\<open>TILE_AREA_LOOP\<close> visits no tile and leaves the iterator as constructed.
\<close>

theorem empty_area_iterator_invalid:
  assumes "TileArea.w ta = 0 \<or> h ta = 0"
  shows "current (OrthogonalTileIterator_init md ta) = INVALID_TILE \<and>
         TILE_AREA_LOOP md ta = Inr ([], OrthogonalTileIterator_init md ta)"
  using assms
  by (simp add: TILE_AREA_LOOP_def current_def OrthogonalTileIterator_init_def iterate_done)

theorem empty_area_iterator_invalid_witness:
  "(TileArea.w \<lparr>TileArea.tile = 194, w = 0, h = 2\<rparr> = 0 \<or>
    h \<lparr>TileArea.tile = 194, w = 0, h = 2\<rparr> = 0) \<and>
   current (OrthogonalTileIterator_init \<lparr>MapSizeX = 64, MapSizeY = 64\<rparr>
     \<lparr>TileArea.tile = 194, w = 0, h = 2\<rparr>) = INVALID_TILE \<and>
   TILE_AREA_LOOP \<lparr>MapSizeX = 64, MapSizeY = 64\<rparr> \<lparr>TileArea.tile = 194, w = 0, h = 2\<rparr> =
     Inr ([], \<lparr>TileIterator.tile = INVALID_TILE, w = 0, rowdiff = 65, x = 0, y = 2\<rparr>)"
  using empty_area_iterator_invalid[of "\<lparr>TileArea.tile = 194, w = 0, h = 2\<rparr>"
      "\<lparr>MapSizeX = 64, MapSizeY = 64\<rparr>"]
  by (simp add: OrthogonalTileIterator_init_def TileDiffXY_def)

text \<open>
  Claim C7. After \<^verbatim>\<open>Clear()\<close> (origin the invalid tile, width and height 0),
  \<^verbatim>\<open>GetCenterTile()\<close> returns the invalid tile, whatever the area held before.
\<close>

theorem cleared_area_center_invalid:
  "GetCenterTile md (Clear ta) = INVALID_TILE"
  by (simp add: GetCenterTile_def Clear_def TILE_ADDXY_def TileDiffXY_def)

text \<open>
  Claim C3. For every area of width 0 or height 0, \<^verbatim>\<open>get_closest_tile\<close> returns the
  invalid tile; the comment of the function promises \<^verbatim>\<open>INVALID_TILE\<close> if the area is
  empty, and the constructor of \<^verbatim>\<open>OrthogonalTileIterator\<close> tests emptiness by
  \<^verbatim>\<open>ta.w == 0 || ta.h == 0\<close>. The function itself tests the origin only. On a map 64
  cells wide, the area of extent 0 by 0 at tile 0 with reference tile 5 gives tile 5, and
  the area of extent 0 by 3 at tile 130, the cell \<open>(2, 2)\<close>, with reference tile 5 gives
  tile 129, the cell \<open>(1, 2)\<close> left of the origin: the upper bound \<open>x + w - 1\<close> of the
  clamp falls below the lower bound. Neither result is the invalid tile.
\<close>

theorem closest_tile_zero_extent_not_invalid:
  "TileArea.w \<lparr>TileArea.tile = 0, w = 0, h = 0\<rparr> = 0 \<and>
   get_closest_tile \<lparr>MapSizeX = 64, MapSizeY = 64\<rparr> \<lparr>TileArea.tile = 0, w = 0, h = 0\<rparr> 5 = 5 \<and>
   (5 :: TileIndex) \<noteq> INVALID_TILE \<and>
   TileArea.w \<lparr>TileArea.tile = 130, w = 0, h = 3\<rparr> = 0 \<and>
   get_closest_tile \<lparr>MapSizeX = 64, MapSizeY = 64\<rparr> \<lparr>TileArea.tile = 130, w = 0, h = 3\<rparr> 5 = 129 \<and>
   (129 :: TileIndex) \<noteq> INVALID_TILE"
  by (simp add: get_closest_tile_def INVALID_TILE_def TileX_def TileY_def TileXY_def ClampU_def
      word_order.extremum_unique)

section \<open>Construction\<close>

text \<open>
  Claim C10. The constructor \<^verbatim>\<open>TileArea(tile, w, h)\<close> takes width and height as 8-bit
  values and stores them in 16-bit fields: whatever the width of the caller's arguments,
  the stored extents are the arguments modulo 256, hence at most 255, and the origin is
  stored as given.
\<close>

theorem init_extent_mod_256:
  "unat (TileArea.w (TileArea_init_call t wa ha)) = unat wa mod 256 \<and>
   unat (h (TileArea_init_call t wa ha)) = unat ha mod 256 \<and>
   unat (TileArea.w (TileArea_init_call t wa ha)) \<le> 255 \<and>
   unat (h (TileArea_init_call t wa ha)) \<le> 255 \<and>
   TileArea.tile (TileArea_init_call t wa ha) = t \<and>
   TileArea.w (TileArea_init t w8 h8) = ucast w8 \<and> h (TileArea_init t w8 h8) = ucast h8"
proof -
  have "unat wa mod 256 \<le> 255" and "unat ha mod 256 \<le> 255"
    by arith+
  then show ?thesis
    by (simp add: TileArea_init_call_def TileArea_init_def unat_ucast_8_16)
qed

text \<open>
  Claim C9. The default constructor \<^verbatim>\<open>TileArea()\<close> initialises no field: the object
  is whatever its storage held. Every triple of origin, width and height is the state of
  some default-constructed area, so nothing relates the three; for every origin there is a
  default-constructed area with that origin and nonzero width and height, which is not the
  state \<^verbatim>\<open>Clear()\<close> gives. \<^verbatim>\<open>Clear()\<close> afterwards gives the canonical empty area.
\<close>

theorem default_constructed_uninitialised:
  "TileArea_default storage = storage \<and>
   (\<forall>t a b. \<exists>s. TileArea_default s = \<lparr>TileArea.tile = t, w = a, h = b\<rparr>) \<and>
   (\<forall>t. \<exists>s. TileArea.tile (TileArea_default s) = t \<and> TileArea.w (TileArea_default s) \<noteq> 0 \<and>
      h (TileArea_default s) \<noteq> 0 \<and> TileArea_default s \<noteq> Clear s) \<and>
   Clear (TileArea_default storage) = \<lparr>TileArea.tile = INVALID_TILE, w = 0, h = 0\<rparr>"
proof -
  have a: "\<exists>s. TileArea_default s = \<lparr>TileArea.tile = t, w = a, h = b\<rparr>" for t a b
    by (rule exI[of _ "\<lparr>TileArea.tile = t, w = a, h = b\<rparr>"]) (simp add: TileArea_default_def)
  have b: "\<exists>s. TileArea.tile (TileArea_default s) = t \<and> TileArea.w (TileArea_default s) \<noteq> 0 \<and>
      h (TileArea_default s) \<noteq> 0 \<and> TileArea_default s \<noteq> Clear s" for t
    by (rule exI[of _ "\<lparr>TileArea.tile = t, w = 1, h = 1\<rparr>"])
       (simp add: TileArea_default_def Clear_def)
  have c: "Clear (TileArea_default storage) = \<lparr>TileArea.tile = INVALID_TILE, w = 0, h = 0\<rparr>"
    by (simp add: TileArea_default_def Clear_def)
  from a b c show ?thesis by (simp add: TileArea_default_def)
qed

section \<open>The assertions of the iterators\<close>

lemma operator_incr_Orthogonal_Inr:
  "current it \<noteq> INVALID_TILE \<Longrightarrow> \<exists>it'. operator_incr OrthogonalTileIterator_Next it = Inr it'"
  by (simp add: operator_incr_def OrthogonalTileIterator_Next_def current_def Let_def)

lemma iterate_until_invalid_Inr: "\<exists>r. iterate_until_invalid it = Inr r"
proof (induction it rule: iterate_until_invalid.induct)
  case (1 it)
  show ?case
  proof (cases "current it = INVALID_TILE")
    case True
    then show ?thesis by (subst iterate_until_invalid.simps) simp
  next
    case False
    from operator_incr_Orthogonal_Inr[OF False] obtain it' where
      s: "operator_incr OrthogonalTileIterator_Next it = Inr it'" by blast
    from "1.IH"[OF False s] obtain r where "iterate_until_invalid it' = Inr r" by blast
    with False s show ?thesis
      by (subst iterate_until_invalid.simps) (simp split: prod.splits)
  qed
qed

text \<open>
  Claim C6. \<^verbatim>\<open>operator ++\<close> asserts that the current tile is not the invalid tile: on an
  exhausted iterator of either class it fails with that assertion. When the current tile is
  valid, \<^verbatim>\<open>operator ++\<close> of an \<^verbatim>\<open>OrthogonalTileIterator\<close> returns an iterator; the
  assertion at the head of \<^verbatim>\<open>OrthogonalTileIterator::Next\<close> never fails through
  \<^verbatim>\<open>operator ++\<close>, and the traversal of any \<^verbatim>\<open>TileArea\<close> by \<^verbatim>\<open>TILE_AREA_LOOP\<close> ends
  without a failed assertion.
\<close>

theorem advance_assertions:
  "(current it = INVALID_TILE \<longrightarrow> operator_incr nxt it = Inl Assert_operator_incr) \<and>
   (current oit \<noteq> INVALID_TILE \<longrightarrow>
      (\<exists>it'. operator_incr OrthogonalTileIterator_Next oit = Inr it')) \<and>
   operator_incr OrthogonalTileIterator_Next oit \<noteq> Inl Assert_Next \<and>
   (\<exists>r. TILE_AREA_LOOP md ta = Inr r)"
  using operator_incr_Orthogonal_Inr[of oit] iterate_until_invalid_Inr
  by (auto simp: operator_incr_def current_def TILE_AREA_LOOP_def OrthogonalTileIterator_Next_def)

theorem advance_assertions_witness:
  "current \<lparr>TileIterator.tile = INVALID_TILE, w = 1, rowdiff = 64, x = 0, y = 0\<rparr> = INVALID_TILE \<and>
   operator_incr OrthogonalTileIterator_Next
     \<lparr>TileIterator.tile = INVALID_TILE, w = 1, rowdiff = 64, x = 0, y = 0\<rparr> =
     Inl Assert_operator_incr \<and>
   current \<lparr>TileIterator.tile = 5, w = 1, rowdiff = 64, x = 1, y = 1\<rparr> \<noteq> INVALID_TILE \<and>
   (\<exists>it'. operator_incr OrthogonalTileIterator_Next
      \<lparr>TileIterator.tile = 5, w = 1, rowdiff = 64, x = 1, y = 1\<rparr> = Inr it')"
  using advance_assertions[of
      "\<lparr>TileIterator.tile = INVALID_TILE, w = 1, rowdiff = 64, x = 0, y = 0\<rparr>"
      OrthogonalTileIterator_Next
      "\<lparr>TileIterator.tile = 5, w = 1, rowdiff = 64, x = 1, y = 1\<rparr>"]
  by (simp add: current_def INVALID_TILE_def)

section \<open>Clone\<close>

lemma copy_object_id: "copy_object obj = obj"
  by (cases obj) (simp_all add: copy_object_def)

lemma advance_n_object:
  "p < length hp \<Longrightarrow>
   advance_n dnext k hp p =
     (case object_advance_n dnext k (hp ! p) of
        Inl e \<Rightarrow> Inl e
      | Inr (cs, obj) \<Rightarrow> Inr (cs, hp[p := obj]))"
proof (induction k arbitrary: hp)
  case 0
  then show ?case by simp
next
  case (Suc k)
  show ?case
  proof (cases "object_incr dnext (hp ! p)")
    case (Inl e)
    then show ?thesis by (simp add: incr_at_def)
  next
    case (Inr obj')
    let ?hp = "hp[p := obj']"
    from Suc.prems have len: "p < length ?hp" by simp
    from Suc.prems have at: "?hp ! p = obj'" by simp
    have step: "incr_at dnext hp p = Inr ?hp"
      using Inr by (simp add: incr_at_def)
    have "advance_n dnext k ?hp p =
         (case object_advance_n dnext k obj' of
            Inl e \<Rightarrow> Inl e
          | Inr (cs, obj) \<Rightarrow> Inr (cs, hp[p := obj]))"
      using Suc.IH[OF len] by (simp add: at split: sum.splits prod.splits)
    then show ?thesis
      by (simp add: step Inr at split: sum.splits prod.splits)
  qed
qed

lemma advance_n_numeral:
  "advance_n dnext (numeral v) hp p = advance_n dnext (Suc (pred_numeral v)) hp p"
  by (simp only: numeral_eq_Suc)

text \<open>
  Claim C8. \<^verbatim>\<open>Clone()\<close> of an iterator of either class allocates a new object at an
  address different from the source's, holding the same state as the source (current tile
  and all counters), and changes no existing object. For every \<open>k\<close>, advancing the clone
  \<open>k\<close> times gives the same tiles (or the same failed assertion) as advancing the source
  \<open>k\<close> times, and advancing either of the two leaves the other as it was.
\<close>

theorem Clone_independent:
  assumes "Clone hp p = Some (hp', q)"
  shows "q \<noteq> p \<and> hp' ! q = hp ! p \<and> hp' ! p = hp ! p \<and>
         object_current (hp' ! q) = object_current (hp ! p) \<and>
         (\<forall>r < length hp. hp' ! r = hp ! r) \<and>
         map_sum id fst (advance_n dnext k hp' q) = map_sum id fst (advance_n dnext k hp' p) \<and>
         (\<forall>cs hp''. advance_n dnext k hp' q = Inr (cs, hp'') \<longrightarrow> hp'' ! p = hp' ! p) \<and>
         (\<forall>cs hp''. advance_n dnext k hp' p = Inr (cs, hp'') \<longrightarrow> hp'' ! q = hp' ! q)"
proof -
  from assms have p: "p < length hp" and q: "q = length hp" and hp': "hp' = hp @ [hp ! p]"
    by (auto simp: Clone_def copy_object_id split: if_splits)
  from p q hp' have pl: "p < length hp'" and ql: "q < length hp'" and ne: "q \<noteq> p"
    and atq: "hp' ! q = hp ! p" and atp: "hp' ! p = hp ! p"
    by (simp_all add: nth_append)
  have old: "\<forall>r < length hp. hp' ! r = hp ! r"
    by (simp add: hp' nth_append)
  have same: "map_sum id fst (advance_n dnext k hp' q) = map_sum id fst (advance_n dnext k hp' p)"
    by (cases "object_advance_n dnext k (hp ! p)")
       (auto simp: advance_n_object[OF pl] advance_n_object[OF ql] atq atp split: prod.splits)
  have keep_p: "hp'' ! p = hp' ! p" if "advance_n dnext k hp' q = Inr (cs, hp'')" for cs hp''
    using that ne by (cases "object_advance_n dnext k (hp' ! q)") (auto simp: advance_n_object[OF ql] split: prod.splits)
  have keep_q: "hp'' ! q = hp' ! q" if "advance_n dnext k hp' p = Inr (cs, hp'')" for cs hp''
    using that ne by (cases "object_advance_n dnext k (hp' ! p)") (auto simp: advance_n_object[OF pl] split: prod.splits)
  from ne atq atp old same keep_p keep_q show ?thesis by simp
qed

theorem Clone_independent_witness:
  "Clone [Orthogonal \<lparr>TileIterator.tile = 194, w = 4, rowdiff = 61, x = 4, y = 2\<rparr>] 0 =
     Some ([Orthogonal \<lparr>TileIterator.tile = 194, w = 4, rowdiff = 61, x = 4, y = 2\<rparr>,
            Orthogonal \<lparr>TileIterator.tile = 194, w = 4, rowdiff = 61, x = 4, y = 2\<rparr>], 1) \<and>
   map_sum id fst (advance_n Inr 2
     [Orthogonal \<lparr>TileIterator.tile = 194, w = 4, rowdiff = 61, x = 4, y = 2\<rparr>,
      Orthogonal \<lparr>TileIterator.tile = 194, w = 4, rowdiff = 61, x = 4, y = 2\<rparr>] 1) =
   map_sum id fst (advance_n Inr 2
     [Orthogonal \<lparr>TileIterator.tile = 194, w = 4, rowdiff = 61, x = 4, y = 2\<rparr>,
      Orthogonal \<lparr>TileIterator.tile = 194, w = 4, rowdiff = 61, x = 4, y = 2\<rparr>] 0) \<and>
   advance_n Inr 2
     [Orthogonal \<lparr>TileIterator.tile = 194, w = 4, rowdiff = 61, x = 4, y = 2\<rparr>,
      Orthogonal \<lparr>TileIterator.tile = 194, w = 4, rowdiff = 61, x = 4, y = 2\<rparr>] 1 =
   Inr ([195, 196],
     [Orthogonal \<lparr>TileIterator.tile = 194, w = 4, rowdiff = 61, x = 4, y = 2\<rparr>,
      Orthogonal \<lparr>TileIterator.tile = 196, w = 4, rowdiff = 61, x = 2, y = 2\<rparr>])"
proof -
  have c: "Clone [Orthogonal \<lparr>TileIterator.tile = 194, w = 4, rowdiff = 61, x = 4, y = 2\<rparr>] 0 =
     Some ([Orthogonal \<lparr>TileIterator.tile = 194, w = 4, rowdiff = 61, x = 4, y = 2\<rparr>,
            Orthogonal \<lparr>TileIterator.tile = 194, w = 4, rowdiff = 61, x = 4, y = 2\<rparr>], 1)"
    by (simp add: Clone_def copy_object_def)
  have e: "advance_n Inr 2
     [Orthogonal \<lparr>TileIterator.tile = 194, w = 4, rowdiff = 61, x = 4, y = 2\<rparr>,
      Orthogonal \<lparr>TileIterator.tile = 194, w = 4, rowdiff = 61, x = 4, y = 2\<rparr>] 1 =
   Inr ([195, 196],
     [Orthogonal \<lparr>TileIterator.tile = 194, w = 4, rowdiff = 61, x = 4, y = 2\<rparr>,
      Orthogonal \<lparr>TileIterator.tile = 196, w = 4, rowdiff = 61, x = 2, y = 2\<rparr>])"
    by (simp add: advance_n_numeral incr_at_def object_incr_def operator_incr_def
        OrthogonalTileIterator_Next_def INVALID_TILE_def object_current_def current_def)
  from Clone_independent[OF c, of Inr 2] c e show ?thesis by simp
qed

section \<open>Coordinates as numbers\<close>

lemma unat_INVALID_TILE: "unat INVALID_TILE = 4294967295"
  by (simp add: INVALID_TILE_def unsigned_minus_1_eq_mask mask_eq_exp_minus_1)

lemma unat_ucast_16_32: "unat (ucast (a :: 16 word) :: 32 word) = unat a"
proof -
  have "unat a < 2 ^ 16" using unsigned_less[of a] by simp
  then have "unat a < 2 ^ 32" by simp
  then have "take_bit 32 (unat a) = unat a" by (simp only: take_bit_nat_eq_self)
  moreover have "unat (ucast a :: 32 word) = take_bit 32 (unat a)"
    using unsigned_ucast_eq[of a, where ?'c = 32 and ?'a = nat] by simp
  ultimately show ?thesis by simp
qed

lemma unat_16_bound: "unat (a :: 16 word) < 65536"
  using unsigned_less[of a, where ?'a = nat] by simp

lemma unat_TileX: "unat (TileX md t) = unat t mod unat (MapSizeX md)"
  by (simp add: TileX_def unat_mod)

lemma unat_TileY: "unat (TileY md t) = unat t div unat (MapSizeX md)"
  by (simp add: TileY_def unat_div)

lemma TileXY_TileX_TileY: "TileXY md (TileX md t) (TileY md t) = t"
  by (simp add: TileXY_def TileX_def TileY_def word_mod_div_equality)

lemma word_of_unat_eq: "unat (c :: uint) = k \<Longrightarrow> c = of_nat k"
  by auto

lemma factor_le: "0 < (b :: nat) \<Longrightarrow> a * b \<le> c \<Longrightarrow> a \<le> c"
  by (cases b) auto

lemma map_ok_sizes:
  assumes "map_ok md"
  shows "0 < unat (MapSizeX md)" "0 < unat (MapSizeY md)"
    "unat (MapSizeX md) \<le> 2 ^ 31" "unat (MapSizeY md) \<le> 2 ^ 31"
proof -
  from assms have x: "0 < unat (MapSizeX md)" and y: "0 < unat (MapSizeY md)"
    and xy: "unat (MapSizeX md) * unat (MapSizeY md) \<le> 2 ^ 31"
    by (simp_all add: map_ok_def word_less_nat_alt)
  show "0 < unat (MapSizeX md)" "0 < unat (MapSizeY md)" by (rule x, rule y)
  show "unat (MapSizeX md) \<le> 2 ^ 31" by (rule factor_le[OF y xy])
  from xy have "unat (MapSizeY md) * unat (MapSizeX md) \<le> 2 ^ 31" by (simp add: mult.commute)
  then show "unat (MapSizeY md) \<le> 2 ^ 31" by (rule factor_le[OF x])
qed

lemma tile_on_map_valid:
  assumes "map_ok md" "tile_on_map md t"
  shows "t \<noteq> INVALID_TILE"
proof
  assume "t = INVALID_TILE"
  with assms(2) have "4294967295 < unat (MapSizeX md) * unat (MapSizeY md)"
    by (simp add: tile_on_map_def unat_INVALID_TILE)
  with assms(1) show False by (simp add: map_ok_def)
qed

lemma tile_on_map_coords:
  assumes "map_ok md" "tile_on_map md t"
  shows "unat (TileX md t) < unat (MapSizeX md)" "unat (TileY md t) < unat (MapSizeY md)"
proof -
  from map_ok_sizes[OF assms(1)] have x: "0 < unat (MapSizeX md)" by simp
  then show "unat (TileX md t) < unat (MapSizeX md)" by (simp add: unat_TileX)
  from assms(2) have "unat t < unat (MapSizeY md) * unat (MapSizeX md)"
    by (simp add: tile_on_map_def mult.commute)
  then show "unat (TileY md t) < unat (MapSizeY md)"
    by (simp add: unat_TileY less_mult_imp_div_less)
qed

lemma ClampU_unat:
  "lo \<le> hi \<Longrightarrow> unat (ClampU a lo hi) = clamp (unat a) (unat lo) (unat hi)"
  by (auto simp: ClampU_def clamp_def word_le_nat_alt)

text \<open>The upper bound \<open>c + e - 1\<close> of a coordinate range does not wrap.\<close>

lemma upper_bound_unat:
  assumes "unat (c :: uint) \<le> 2 ^ 31" "e \<noteq> (0 :: 16 word)"
  shows "unat (c + ucast e - 1) = unat c + unat e - 1" "c \<le> c + ucast e - 1"
proof -
  from assms(2) have e: "0 < unat e" by (simp add: unat_gt_0)
  have eb: "unat e < 65536" by (rule unat_16_bound)
  have s: "unat (c + ucast e) = unat c + unat e"
    using assms(1) eb by (simp add: unat_add_lem[THEN iffD1] unat_ucast_16_32)
  have ne: "c + ucast e \<noteq> 0"
    using s e by (metis add_is_0 less_numeral_extra(3) unat_0)
  show u: "unat (c + ucast e - 1) = unat c + unat e - 1"
    using s ne by (simp add: unat_minus_one)
  show "c \<le> c + ucast e - 1"
    using u e by (simp add: word_le_nat_alt)
qed


text \<open>
  Claim C4. For every area whose origin is a cell of the map and whose width and height
  are positive, and every reference tile \<open>t\<close>, \<^verbatim>\<open>get_closest_tile\<close> returns the tile
  composed from the x of \<open>t\<close> clamped to \<open>[x0, x0 + W - 1]\<close> and the y of \<open>t\<close> clamped
  to \<open>[y0, y0 + H - 1]\<close>; when \<open>t\<close> lies inside the area the result is \<open>t\<close> itself.
\<close>

theorem closest_tile_clamps:
  assumes "map_ok md" "tile_on_map md (TileArea.tile ta)" "TileArea.w ta \<noteq> 0" "h ta \<noteq> 0"
  shows "get_closest_tile md ta t =
           TileXY md
             (of_nat (clamp (unat (TileX md t)) (unat (TileX md (TileArea.tile ta)))
                (unat (TileX md (TileArea.tile ta)) + unat (TileArea.w ta) - 1)))
             (of_nat (clamp (unat (TileY md t)) (unat (TileY md (TileArea.tile ta)))
                (unat (TileY md (TileArea.tile ta)) + unat (h ta) - 1))) \<and>
         (inside_area md ta t \<longrightarrow> get_closest_tile md ta t = t)"
proof -
  let ?x0 = "TileX md (TileArea.tile ta)" and ?y0 = "TileY md (TileArea.tile ta)"
  let ?xh = "?x0 + ucast (TileArea.w ta) - 1" and ?yh = "?y0 + ucast (h ta) - 1"
  from tile_on_map_valid[OF assms(1,2)] have valid: "TileArea.tile ta \<noteq> INVALID_TILE" .
  from tile_on_map_coords[OF assms(1,2)] map_ok_sizes[OF assms(1)]
  have xb: "unat ?x0 \<le> 2 ^ 31" and yb: "unat ?y0 \<le> 2 ^ 31" by simp_all
  note ux = upper_bound_unat[OF xb assms(3)] and uy = upper_bound_unat[OF yb assms(4)]
  have cx: "ClampU (TileX md t) ?x0 ?xh =
      of_nat (clamp (unat (TileX md t)) (unat ?x0) (unat ?x0 + unat (TileArea.w ta) - 1))"
    using ClampU_unat[OF ux(2), of "TileX md t"] ux(1) by (intro word_of_unat_eq) simp
  have cy: "ClampU (TileY md t) ?y0 ?yh =
      of_nat (clamp (unat (TileY md t)) (unat ?y0) (unat ?y0 + unat (h ta) - 1))"
    using ClampU_unat[OF uy(2), of "TileY md t"] uy(1) by (intro word_of_unat_eq) simp
  have eq: "get_closest_tile md ta t =
      TileXY md (ClampU (TileX md t) ?x0 ?xh) (ClampU (TileY md t) ?y0 ?yh)"
    using valid by (simp add: get_closest_tile_def Let_def)
  have ins: "get_closest_tile md ta t = t" if "inside_area md ta t"
  proof -
    from that have "clamp (unat (TileX md t)) (unat ?x0) (unat ?x0 + unat (TileArea.w ta) - 1)
        = unat (TileX md t)"
      and "clamp (unat (TileY md t)) (unat ?y0) (unat ?y0 + unat (h ta) - 1) = unat (TileY md t)"
      by (auto simp: inside_area_def clamp_def)
    then show ?thesis
      by (simp add: eq cx cy TileXY_TileX_TileY)
  qed
  from eq cx cy ins show ?thesis by simp
qed

theorem closest_tile_clamps_witness:
  "map_ok \<lparr>MapSizeX = 64, MapSizeY = 64\<rparr> \<and>
   tile_on_map \<lparr>MapSizeX = 64, MapSizeY = 64\<rparr> 194 \<and>
   get_closest_tile \<lparr>MapSizeX = 64, MapSizeY = 64\<rparr> \<lparr>TileArea.tile = 194, w = 4, h = 2\<rparr> 650 = 261 \<and>
   inside_area \<lparr>MapSizeX = 64, MapSizeY = 64\<rparr> \<lparr>TileArea.tile = 194, w = 4, h = 2\<rparr> 259 \<and>
   get_closest_tile \<lparr>MapSizeX = 64, MapSizeY = 64\<rparr> \<lparr>TileArea.tile = 194, w = 4, h = 2\<rparr> 259 = 259"
proof -
  let ?md = "\<lparr>MapSizeX = 64, MapSizeY = 64\<rparr>"
  let ?ta = "\<lparr>TileArea.tile = 194, w = 4, h = 2\<rparr>"
  have m: "map_ok ?md" by (simp add: map_ok_def)
  have v: "tile_on_map ?md (TileArea.tile ?ta)" by (simp add: tile_on_map_def)
  have w: "TileArea.w ?ta \<noteq> 0" and h: "h ?ta \<noteq> 0" by simp_all
  have i: "inside_area ?md ?ta 259" by (simp add: inside_area_def TileX_def TileY_def)
  have e: "TileXY ?md
             (of_nat (clamp (unat (TileX ?md 650)) (unat (TileX ?md (TileArea.tile ?ta)))
                (unat (TileX ?md (TileArea.tile ?ta)) + unat (TileArea.w ?ta) - 1)))
             (of_nat (clamp (unat (TileY ?md 650)) (unat (TileY ?md (TileArea.tile ?ta)))
                (unat (TileY ?md (TileArea.tile ?ta)) + unat (h ?ta) - 1))) = 261"
    by (simp add: TileXY_def TileX_def TileY_def clamp_def)
  from closest_tile_clamps[OF m v w h, of 650] e
  have r1: "get_closest_tile ?md ?ta 650 = 261" by (simp only:)
  from closest_tile_clamps[OF m v w h, of 259] i
  have r2: "get_closest_tile ?md ?ta 259 = 259" by blast
  from v have v': "tile_on_map ?md 194" by simp
  from m v' r1 i r2 show ?thesis by (intro conjI)
qed

section \<open>The traversal of an area\<close>

lemma unat_of_nat_uint: "k < 2 ^ 32 \<Longrightarrow> unat (of_nat k :: uint) = k"
  by (simp add: unat_of_nat)

lemma of_nat_uint_neq_1: "1 < k \<Longrightarrow> k < 2 ^ 32 \<Longrightarrow> (of_nat k :: uint) \<noteq> 1"
proof
  assume a: "1 < k" "k < 2 ^ 32" "(of_nat k :: uint) = 1"
  from a(3) have "unat (of_nat k :: uint) = 1" by simp
  with unat_of_nat_uint[OF a(2)] a(1) show False by simp
qed

lemma incr_in_row:
  assumes "TileIterator.tile it \<noteq> INVALID_TILE" "x it \<noteq> 1"
  shows "operator_incr OrthogonalTileIterator_Next it =
           Inr (it\<lparr>x := x it - 1, TileIterator.tile := TileIterator.tile it + 1\<rparr>)"
  using assms
  by (simp add: operator_incr_def OrthogonalTileIterator_Next_def Let_def word_neq_0_conv[symmetric])

lemma incr_new_row:
  assumes "TileIterator.tile it \<noteq> INVALID_TILE" "x it = 1" "y it \<noteq> 1"
  shows "operator_incr OrthogonalTileIterator_Next it =
           Inr (it\<lparr>x := OrthogonalTileIterator.w it, y := y it - 1,
                    TileIterator.tile := TileIterator.tile it + rowdiff it\<rparr>)"
  using assms
  by (simp add: operator_incr_def OrthogonalTileIterator_Next_def Let_def word_neq_0_conv[symmetric])

lemma incr_last:
  assumes "TileIterator.tile it \<noteq> INVALID_TILE" "x it = 1" "y it = 1"
  shows "operator_incr OrthogonalTileIterator_Next it =
           Inr (it\<lparr>x := 0, y := 0, TileIterator.tile := INVALID_TILE\<rparr>)"
  using assms
  by (simp add: operator_incr_def OrthogonalTileIterator_Next_def Let_def)

lemma map_upt_shift: "f 0 # map (\<lambda>j. f (Suc j)) [0..<k] = map f [0..<Suc k]"
  by (simp only: upt_conv_Cons[of 0 "Suc k"] map_Suc_upt[symmetric] list.map map_map o_def)

lemma iterate_row:
  assumes "x it = of_nat k" "0 < k" "k < 2 ^ 32"
    and "\<forall>j<k. TileIterator.tile it + of_nat j \<noteq> INVALID_TILE"
    and "iterate_until_invalid
           (it\<lparr>x := 1, TileIterator.tile := TileIterator.tile it + of_nat (k - 1)\<rparr>) = Inr (cs, fin)"
  shows "iterate_until_invalid it =
           Inr (map (\<lambda>j. TileIterator.tile it + of_nat j) [0..<k - 1] @ cs, fin)"
  using assms
proof (induction k arbitrary: it)
  case 0
  then show ?case by simp
next
  case (Suc k)
  show ?case
  proof (cases "k = 0")
    case True
    with Suc.prems(1) have "it\<lparr>x := 1, TileIterator.tile := TileIterator.tile it + of_nat (Suc k - 1)\<rparr> = it"
      by simp
    with Suc.prems(5) True show ?thesis by simp
  next
    case False
    let ?it' = "it\<lparr>x := x it - 1, TileIterator.tile := TileIterator.tile it + 1\<rparr>"
    from Suc.prems(4)[rule_format, of 0] have valid: "TileIterator.tile it \<noteq> INVALID_TILE"
      by simp
    have "(of_nat (Suc k) :: uint) \<noteq> 1"
      using False Suc.prems(3) by (intro of_nat_uint_neq_1) simp_all
    with Suc.prems(1) have "x it \<noteq> 1" by (simp del: of_nat_Suc)
    from incr_in_row[OF valid this] have step: "operator_incr OrthogonalTileIterator_Next it = Inr ?it'" .
    have x': "x ?it' = of_nat k" using Suc.prems(1) by simp
    have free: "\<forall>j<k. TileIterator.tile ?it' + of_nat j \<noteq> INVALID_TILE"
    proof (intro allI impI)
      fix j assume "j < k"
      then have "TileIterator.tile it + of_nat (Suc j) \<noteq> INVALID_TILE"
        using Suc.prems(4)[rule_format, of "Suc j"] by simp
      then show "TileIterator.tile ?it' + of_nat j \<noteq> INVALID_TILE"
        by (simp add: add.assoc)
    qed
    have k1: "(1 :: uint) + of_nat (k - Suc 0) = of_nat k"
      using False by (cases k) simp_all
    have last: "?it'\<lparr>x := 1, TileIterator.tile := TileIterator.tile ?it' + of_nat (k - 1)\<rparr> =
        it\<lparr>x := 1, TileIterator.tile := TileIterator.tile it + of_nat (Suc k - 1)\<rparr>"
      by (simp add: add.assoc k1)
    have k0: "0 < k" and kb: "k < 2 ^ 32" using False Suc.prems(3) by simp_all
    have "iterate_until_invalid ?it' =
        Inr (map (\<lambda>j. TileIterator.tile ?it' + of_nat j) [0..<k - 1] @ cs, fin)"
      by (rule Suc.IH[OF x' k0 kb free]) (simp only: last Suc.prems(5))
    from iterate_step[OF valid step this]
    have run: "iterate_until_invalid it =
        Inr (TileIterator.tile it #
             map (\<lambda>j. TileIterator.tile ?it' + of_nat j) [0..<k - 1] @ cs, fin)"
      by simp
    have cells: "TileIterator.tile it #
          map (\<lambda>j. TileIterator.tile ?it' + of_nat j) [0..<k - 1] =
        map (\<lambda>j. TileIterator.tile it + of_nat j) [0..<Suc (k - 1)]"
      using map_upt_shift[of "\<lambda>j. TileIterator.tile it + of_nat j" "k - 1"]
      by (simp add: add.assoc)
    from run cells show ?thesis using False by simp
  qed
qed

lemma map_upt_last: "0 < k \<Longrightarrow> map f [0..<k - 1] @ [f (k - 1)] = map f [0..<k]"
  by (cases k) simp_all

lemma iterate_rows:
  assumes "x it = of_nat W" "OrthogonalTileIterator.w it = of_nat W" "0 < W" "W < 2 ^ 32"
    and "y it = of_nat r" "0 < r" "r < 2 ^ 32"
    and "of_nat (W - 1) + rowdiff it = of_nat S"
    and "\<forall>i<r. \<forall>j<W. TileIterator.tile it + of_nat (i * S + j) \<noteq> INVALID_TILE"
  shows "\<exists>fin. iterate_until_invalid it =
           Inr (concat (map (\<lambda>i. map (\<lambda>j. TileIterator.tile it + of_nat (i * S + j)) [0..<W])
                            [0..<r]), fin) \<and>
         TileIterator.tile fin = INVALID_TILE"
  using assms
proof (induction r arbitrary: it)
  case 0
  then show ?case by simp
next
  case (Suc r)
  let ?t = "TileIterator.tile it"
  let ?row = "\<lambda>i. map (\<lambda>j. ?t + of_nat (i * S + j)) [0..<W]"
  let ?s1 = "it\<lparr>x := 1, TileIterator.tile := ?t + of_nat (W - 1)\<rparr>"
  have free0: "\<forall>j<W. ?t + of_nat j \<noteq> INVALID_TILE"
    using Suc.prems(9)[rule_format, of 0] by simp
  have valid1: "TileIterator.tile ?s1 \<noteq> INVALID_TILE"
  proof -
    from Suc.prems(3) have "W - 1 < W" by simp
    from free0[rule_format, OF this] show ?thesis by simp
  qed
  have row0: "map (\<lambda>j. ?t + of_nat j) [0..<W - 1] @ [?t + of_nat (W - 1)] = ?row 0"
    using map_upt_last[OF Suc.prems(3), of "\<lambda>j. ?t + of_nat j"] by simp
  show ?case
  proof (cases "r = 0")
    case True
    let ?fin = "?s1\<lparr>x := 0, y := 0, TileIterator.tile := INVALID_TILE\<rparr>"
    from True Suc.prems(5) have "y ?s1 = 1" by simp
    from incr_last[OF valid1 _ this]
    have "operator_incr OrthogonalTileIterator_Next ?s1 = Inr ?fin" by simp
    from iterate_step[OF valid1 this iterate_done[of ?fin]]
    have "iterate_until_invalid ?s1 = Inr ([?t + of_nat (W - 1)], ?fin)" by simp
    from iterate_row[OF Suc.prems(1,3,4) free0 this] row0
    have "iterate_until_invalid it = Inr (?row 0, ?fin)" by simp
    with True show ?thesis by simp
  next
    case False
    let ?it2 = "?s1\<lparr>x := OrthogonalTileIterator.w ?s1, y := y ?s1 - 1,
                     TileIterator.tile := TileIterator.tile ?s1 + rowdiff ?s1\<rparr>"
    have "(of_nat (Suc r) :: uint) \<noteq> 1"
      using False Suc.prems(7) by (intro of_nat_uint_neq_1) simp_all
    with Suc.prems(5) have "y ?s1 \<noteq> 1" by (simp del: of_nat_Suc)
    from incr_new_row[OF valid1 _ this]
    have step: "operator_incr OrthogonalTileIterator_Next ?s1 = Inr ?it2" by simp
    have t2: "TileIterator.tile ?it2 = ?t + of_nat S"
      using Suc.prems(8) by (simp add: add.assoc)
    have x2: "x ?it2 = of_nat W" and w2: "OrthogonalTileIterator.w ?it2 = of_nat W"
      and y2: "y ?it2 = of_nat r" and d2: "of_nat (W - 1) + rowdiff ?it2 = of_nat S"
      using Suc.prems(1,2,5,8) by simp_all
    have r0: "0 < r" and rb: "r < 2 ^ 32" using False Suc.prems(7) by simp_all
    have shift: "TileIterator.tile ?it2 + of_nat (i * S + j) = ?t + of_nat (Suc i * S + j)" for i j
      by (simp only: t2) (simp add: algebra_simps)
    have free2: "\<forall>i<r. \<forall>j<W. TileIterator.tile ?it2 + of_nat (i * S + j) \<noteq> INVALID_TILE"
    proof (intro allI impI)
      fix i j assume "i < r" "j < W"
      with Suc.prems(9)[rule_format, of "Suc i" j]
      have "?t + of_nat (Suc i * S + j) \<noteq> INVALID_TILE" by simp
      then show "TileIterator.tile ?it2 + of_nat (i * S + j) \<noteq> INVALID_TILE"
        unfolding shift .
    qed
    from Suc.IH[OF x2 w2 Suc.prems(3,4) y2 r0 rb d2 free2] obtain fin where
      rest: "iterate_until_invalid ?it2 =
        Inr (concat (map (\<lambda>i. map (\<lambda>j. TileIterator.tile ?it2 + of_nat (i * S + j)) [0..<W])
                         [0..<r]), fin)"
      and fin: "TileIterator.tile fin = INVALID_TILE"
      by blast
    from rest have rest': "iterate_until_invalid ?it2 =
        Inr (concat (map (\<lambda>i. ?row (Suc i)) [0..<r]), fin)"
      unfolding shift .
    from iterate_step[OF valid1 step rest']
    have "iterate_until_invalid ?s1 =
        Inr ((?t + of_nat (W - 1)) # concat (map (\<lambda>i. ?row (Suc i)) [0..<r]), fin)"
      by simp
    from iterate_row[OF Suc.prems(1,3,4) free0 this]
    have "iterate_until_invalid it =
        Inr ((map (\<lambda>j. ?t + of_nat j) [0..<W - 1] @ [?t + of_nat (W - 1)]) @
             concat (map (\<lambda>i. ?row (Suc i)) [0..<r]), fin)"
      by simp
    then have "iterate_until_invalid it =
        Inr (concat (?row 0 # map (\<lambda>i. ?row (Suc i)) [0..<r]), fin)"
      by (simp only: row0 concat.simps)
    then have "iterate_until_invalid it = Inr (concat (map ?row [0..<Suc r]), fin)"
      by (simp only: map_upt_shift[of ?row r])
    with fin show ?thesis by blast
  qed
qed

lemma of_nat_unat_uint: "of_nat (unat (a :: uint)) = a"
  by simp

text \<open>The linear index of the cell \<open>(i, j)\<close> of an area on the map.\<close>

lemma area_cell_index:
  assumes "map_ok md" "area_on_map md ta" "i < unat (h ta)" "j < unat (TileArea.w ta)"
  shows "unat (TileArea.tile ta) + (i * unat (MapSizeX md) + j) =
           (unat (TileY md (TileArea.tile ta)) + i) * unat (MapSizeX md) +
           (unat (TileX md (TileArea.tile ta)) + j)"
    and "unat (TileX md (TileArea.tile ta)) + j < unat (MapSizeX md)"
    and "unat (TileY md (TileArea.tile ta)) + i < unat (MapSizeY md)"
    and "unat (TileArea.tile ta) + (i * unat (MapSizeX md) + j) < 2 ^ 31"
proof -
  let ?S = "unat (MapSizeX md)" and ?t = "unat (TileArea.tile ta)"
  let ?x0 = "unat (TileX md (TileArea.tile ta))" and ?y0 = "unat (TileY md (TileArea.tile ta))"
  have t: "?t = ?y0 * ?S + ?x0"
    by (simp add: unat_TileX unat_TileY)
  show idx: "?t + (i * ?S + j) = (?y0 + i) * ?S + (?x0 + j)"
    by (simp add: t algebra_simps)
  from assms(2,4) show xb: "?x0 + j < ?S"
    by (simp add: area_on_map_def)
  from assms(2,3) show yb: "?y0 + i < unat (MapSizeY md)"
    by (simp add: area_on_map_def)
  from yb have "Suc (?y0 + i) \<le> unat (MapSizeY md)" by simp
  then have "Suc (?y0 + i) * ?S \<le> unat (MapSizeY md) * ?S"
    by (rule mult_le_mono1)
  moreover from xb have "(?y0 + i) * ?S + (?x0 + j) < Suc (?y0 + i) * ?S" by simp
  moreover from assms(1) have "unat (MapSizeY md) * ?S \<le> 2 ^ 31"
    by (simp add: map_ok_def mult.commute)
  ultimately show "?t + (i * ?S + j) < 2 ^ 31"
    unfolding idx by linarith
qed

lemma area_cell_unat:
  assumes "map_ok md" "area_on_map md ta" "i < unat (h ta)" "j < unat (TileArea.w ta)"
  shows "unat (TileArea.tile ta + of_nat (i * unat (MapSizeX md) + j)) =
           unat (TileArea.tile ta) + (i * unat (MapSizeX md) + j)"
proof -
  let ?k = "i * unat (MapSizeX md) + j"
  from area_cell_index(4)[OF assms] have b: "unat (TileArea.tile ta) + ?k < 2 ^ 31" .
  then have k: "?k < 2 ^ 32" by simp
  from b have "unat (TileArea.tile ta) + unat (of_nat ?k :: uint) < 2 ^ LENGTH(32)"
    by (simp only: unat_of_nat_uint[OF k]) simp
  then have "unat (TileArea.tile ta + of_nat ?k) = unat (TileArea.tile ta) + unat (of_nat ?k :: uint)"
    by (simp only: unat_add_lem[THEN iffD1])
  then show ?thesis by (simp only: unat_of_nat_uint[OF k])
qed

lemma area_cell_valid:
  assumes "map_ok md" "area_on_map md ta" "i < unat (h ta)" "j < unat (TileArea.w ta)"
  shows "TileArea.tile ta + of_nat (i * unat (MapSizeX md) + j) \<noteq> INVALID_TILE"
proof
  assume "TileArea.tile ta + of_nat (i * unat (MapSizeX md) + j) = INVALID_TILE"
  then have "unat (TileArea.tile ta + of_nat (i * unat (MapSizeX md) + j)) = 4294967295"
    by (simp only: unat_INVALID_TILE)
  with area_cell_unat[OF assms] area_cell_index(4)[OF assms] show False by simp
qed

lemma area_cell_TileXY:
  "TileArea.tile ta + of_nat (i * unat (MapSizeX md) + j) =
     TileXY md (TileX md (TileArea.tile ta) + of_nat j) (TileY md (TileArea.tile ta) + of_nat i)"
proof -
  have "TileXY md (TileX md (TileArea.tile ta) + of_nat j) (TileY md (TileArea.tile ta) + of_nat i)
      = TileXY md (TileX md (TileArea.tile ta)) (TileY md (TileArea.tile ta)) +
        (of_nat i * MapSizeX md + of_nat j)"
    by (simp add: TileXY_def algebra_simps)
  then show ?thesis
    by (simp add: TileXY_TileX_TileY)
qed

lemma area_cells_index:
  "area_cells md ta =
     concat (map (\<lambda>i. map (\<lambda>j. TileArea.tile ta + of_nat (i * unat (MapSizeX md) + j))
                           [0 ..< unat (TileArea.w ta)])
                 [0 ..< unat (h ta)])"
  by (simp only: area_cells_def area_cell_TileXY)

lemma loop_visits_area_cells:
  assumes "map_ok md" "area_on_map md ta" "TileArea.w ta \<noteq> 0" "h ta \<noteq> 0"
  shows "\<exists>fin. TILE_AREA_LOOP md ta = Inr (area_cells md ta, fin) \<and> current fin = INVALID_TILE"
proof -
  let ?it = "OrthogonalTileIterator_init md ta"
  let ?W = "unat (TileArea.w ta)" and ?H = "unat (h ta)" and ?S = "unat (MapSizeX md)"
  from assms(3,4) have t: "TileIterator.tile ?it = TileArea.tile ta"
    by (simp add: OrthogonalTileIterator_init_def)
  have x: "x ?it = of_nat ?W" and w: "OrthogonalTileIterator.w ?it = of_nat ?W"
    and y: "y ?it = of_nat ?H"
    by (simp_all add: OrthogonalTileIterator_init_def)
  have W0: "0 < ?W" using assms(3) unat_gt_0 by blast
  have H0: "0 < ?H" using assms(4) unat_gt_0 by blast
  have Wb: "?W < 2 ^ 32" and Hb: "?H < 2 ^ 32"
    using unat_16_bound[of "TileArea.w ta"] unat_16_bound[of "h ta"] by simp_all
  have d: "of_nat (?W - 1) + rowdiff ?it = of_nat ?S"
  proof -
    have r: "rowdiff ?it = MapSizeX md + 1 - of_nat ?W"
      by (simp add: OrthogonalTileIterator_init_def TileDiffXY_def)
    from W0 have "1 \<le> ?W" by simp
    then have p: "(of_nat (?W - 1) :: uint) = of_nat ?W - 1"
      by (simp only: of_nat_diff of_nat_1)
    have "of_nat ?W - 1 + (MapSizeX md + 1 - of_nat ?W) = MapSizeX md"
      by simp
    then show ?thesis
      by (simp only: r p of_nat_unat_uint)
  qed
  have free: "\<forall>i<?H. \<forall>j<?W. TileIterator.tile ?it + of_nat (i * ?S + j) \<noteq> INVALID_TILE"
    using area_cell_valid[OF assms(1,2)] by (simp only: t) blast
  from iterate_rows[OF x w W0 Wb y H0 Hb d free] show ?thesis
    by (simp only: TILE_AREA_LOOP_def t area_cells_index current_def)
qed

lemma concat_map_product:
  "concat (map (\<lambda>i. map (f i) ys) xs) = map (\<lambda>(i, j). f i j) (List.product xs ys)"
  by (induction xs) simp_all

lemma area_cells_product:
  "area_cells md ta =
     map (\<lambda>(i, j). TileArea.tile ta + of_nat (i * unat (MapSizeX md) + j))
         (List.product [0 ..< unat (h ta)] [0 ..< unat (TileArea.w ta)])"
  by (simp only: area_cells_index concat_map_product)

lemma length_area_cells: "length (area_cells md ta) = unat (TileArea.w ta) * unat (h ta)"
  by (simp add: area_cells_product mult.commute)

lemma row_col_unique:
  assumes "(a :: nat) * s + b = c * s + d" "b < s" "d < s"
  shows "a = c \<and> b = d"
proof -
  from assms(2,3) have s: "0 < s" by simp
  have "(a * s + b) div s = a" "(c * s + d) div s = c"
    using assms(2,3) s by simp_all
  with assms(1) have "a = c" by simp
  with assms(1) show ?thesis by simp
qed

lemma area_cell_coords:
  assumes "map_ok md" "area_on_map md ta" "i < unat (h ta)" "j < unat (TileArea.w ta)"
  shows "unat (TileX md (TileArea.tile ta + of_nat (i * unat (MapSizeX md) + j))) =
           unat (TileX md (TileArea.tile ta)) + j"
    and "unat (TileY md (TileArea.tile ta + of_nat (i * unat (MapSizeX md) + j))) =
           unat (TileY md (TileArea.tile ta)) + i"
proof -
  note u = area_cell_unat[OF assms] and idx = area_cell_index(1)[OF assms]
    and xb = area_cell_index(2)[OF assms]
  show "unat (TileX md (TileArea.tile ta + of_nat (i * unat (MapSizeX md) + j))) =
           unat (TileX md (TileArea.tile ta)) + j"
    unfolding unat_TileX[of md "TileArea.tile ta + of_nat (i * unat (MapSizeX md) + j)"] u idx
    using xb by simp
  show "unat (TileY md (TileArea.tile ta + of_nat (i * unat (MapSizeX md) + j))) =
           unat (TileY md (TileArea.tile ta)) + i"
    unfolding unat_TileY[of md "TileArea.tile ta + of_nat (i * unat (MapSizeX md) + j)"] u idx
    using xb by simp
qed

lemma distinct_area_cells:
  assumes "map_ok md" "area_on_map md ta"
  shows "distinct (area_cells md ta)"
proof -
  let ?F = "\<lambda>(i, j). TileArea.tile ta + of_nat (i * unat (MapSizeX md) + j)"
  let ?P = "List.product [0 ..< unat (h ta)] [0 ..< unat (TileArea.w ta)]"
  have "inj_on ?F (set ?P)"
  proof (rule inj_onI)
    fix p q assume p: "p \<in> set ?P" and q: "q \<in> set ?P" and eq: "?F p = ?F q"
    obtain i j where pij: "p = (i, j)" by (cases p)
    obtain k l where qkl: "q = (k, l)" by (cases q)
    from p pij have ij: "i < unat (h ta)" "j < unat (TileArea.w ta)" by simp_all
    from q qkl have kl: "k < unat (h ta)" "l < unat (TileArea.w ta)" by simp_all
    from eq pij qkl have
      "unat (TileArea.tile ta + of_nat (i * unat (MapSizeX md) + j)) =
       unat (TileArea.tile ta + of_nat (k * unat (MapSizeX md) + l))"
      by simp
    then have "i * unat (MapSizeX md) + j = k * unat (MapSizeX md) + l"
      unfolding area_cell_unat[OF assms ij] area_cell_unat[OF assms kl] by simp
    moreover have "j < unat (MapSizeX md)" "l < unat (MapSizeX md)"
      using area_cell_index(2)[OF assms ij] area_cell_index(2)[OF assms kl] by simp_all
    ultimately have "i = k \<and> j = l" by (rule row_col_unique)
    with pij qkl show "p = q" by simp
  qed
  moreover have "distinct ?P" by (simp add: distinct_product)
  ultimately show ?thesis
    by (simp only: area_cells_product distinct_map simp_thms)
qed

lemma set_area_cells:
  assumes "map_ok md" "area_on_map md ta"
  shows "set (area_cells md ta) = {t. inside_area md ta t}"
proof (intro set_eqI iffI)
  fix t assume "t \<in> set (area_cells md ta)"
  then obtain i j where ij: "i < unat (h ta)" "j < unat (TileArea.w ta)"
    and t: "t = TileArea.tile ta + of_nat (i * unat (MapSizeX md) + j)"
    by (auto simp: area_cells_product)
  from area_cell_coords[OF assms ij] ij show "t \<in> {t. inside_area md ta t}"
    by (simp add: inside_area_def t)
next
  fix t assume "t \<in> {t. inside_area md ta t}"
  then have ins: "inside_area md ta t" by simp
  let ?j = "unat (TileX md t) - unat (TileX md (TileArea.tile ta))"
  let ?i = "unat (TileY md t) - unat (TileY md (TileArea.tile ta))"
  from ins have ij: "?i < unat (h ta)" "?j < unat (TileArea.w ta)"
    by (auto simp: inside_area_def)
  from ins have "unat (TileX md (TileArea.tile ta)) + ?j = unat (TileX md t)"
    and "unat (TileY md (TileArea.tile ta)) + ?i = unat (TileY md t)"
    by (auto simp: inside_area_def)
  then have "of_nat (unat (TileX md (TileArea.tile ta)) + ?j) = (of_nat (unat (TileX md t)) :: uint)"
    and "of_nat (unat (TileY md (TileArea.tile ta)) + ?i) = (of_nat (unat (TileY md t)) :: uint)"
    by simp_all
  then have "TileX md (TileArea.tile ta) + of_nat ?j = TileX md t"
    and "TileY md (TileArea.tile ta) + of_nat ?i = TileY md t"
    by (simp_all only: of_nat_add of_nat_unat_uint)
  then have "TileArea.tile ta + of_nat (?i * unat (MapSizeX md) + ?j) = t"
    by (simp only: area_cell_TileXY TileXY_TileX_TileY)
  with ij have "t \<in> (\<lambda>(i, j). TileArea.tile ta + of_nat (i * unat (MapSizeX md) + j)) `
      set (List.product [0 ..< unat (h ta)] [0 ..< unat (TileArea.w ta)])"
    by (intro image_eqI[where x = "(?i, ?j)"]) simp_all
  then show "t \<in> set (area_cells md ta)"
    by (simp only: area_cells_product set_map)
qed

lemma iterate_unfold:
  "TileIterator.tile it \<noteq> INVALID_TILE \<Longrightarrow>
   iterate_until_invalid it =
     (case operator_incr OrthogonalTileIterator_Next it of
        Inl e \<Rightarrow> Inl e
      | Inr it' \<Rightarrow>
          (case iterate_until_invalid it' of
             Inl e \<Rightarrow> Inl e
           | Inr (cs, fin) \<Rightarrow> Inr (TileIterator.tile it # cs, fin)))"
  by (subst iterate_until_invalid.simps) (simp add: current_def split: sum.splits prod.splits)


text \<open>
  Claim C1, as stated: for every area of positive width \<open>W\<close> and height \<open>H\<close> the traversal
  visits exactly \<open>W * H\<close> tiles, each cell of the rectangle once. It fails for the area of
  extent 1 by 1 whose origin is the invalid tile, where the traversal visits no tile at
  all, and for the area of extent 2 by 1 at \<open>(63, 0)\<close> on a map 64 cells wide, where the
  second tile visited is tile 64, the cell \<open>(0, 1)\<close>, which is outside the rectangle: the
  iterator steps the linear index and never looks at the bounds of the map.
\<close>

theorem orthogonal_iteration_off_map_counterexample:
  "TileArea.w \<lparr>TileArea.tile = INVALID_TILE, w = 1, h = 1\<rparr> \<noteq> 0 \<and>
   h \<lparr>TileArea.tile = INVALID_TILE, w = 1, h = 1\<rparr> \<noteq> 0 \<and>
   TILE_AREA_LOOP \<lparr>MapSizeX = 64, MapSizeY = 64\<rparr> \<lparr>TileArea.tile = INVALID_TILE, w = 1, h = 1\<rparr> =
     Inr ([], \<lparr>TileIterator.tile = INVALID_TILE, w = 1, rowdiff = 64, x = 1, y = 1\<rparr>) \<and>
   TILE_AREA_LOOP \<lparr>MapSizeX = 64, MapSizeY = 64\<rparr> \<lparr>TileArea.tile = 63, w = 2, h = 1\<rparr> =
     Inr ([63, 64], \<lparr>TileIterator.tile = INVALID_TILE, w = 2, rowdiff = 63, x = 0, y = 0\<rparr>) \<and>
   TileX \<lparr>MapSizeX = 64, MapSizeY = 64\<rparr> 64 = 0 \<and> TileY \<lparr>MapSizeX = 64, MapSizeY = 64\<rparr> 64 = 1 \<and>
   \<not> inside_area \<lparr>MapSizeX = 64, MapSizeY = 64\<rparr> \<lparr>TileArea.tile = 63, w = 2, h = 1\<rparr> 64"
proof -
  have a: "TILE_AREA_LOOP \<lparr>MapSizeX = 64, MapSizeY = 64\<rparr>
      \<lparr>TileArea.tile = INVALID_TILE, w = 1, h = 1\<rparr> =
     Inr ([], \<lparr>TileIterator.tile = INVALID_TILE, w = 1, rowdiff = 64, x = 1, y = 1\<rparr>)"
    by (simp add: TILE_AREA_LOOP_def OrthogonalTileIterator_init_def TileDiffXY_def iterate_done)
  have n: "(63 :: TileIndex) \<noteq> INVALID_TILE" "(64 :: TileIndex) \<noteq> INVALID_TILE"
    by (simp_all add: INVALID_TILE_def)
  have b: "TILE_AREA_LOOP \<lparr>MapSizeX = 64, MapSizeY = 64\<rparr> \<lparr>TileArea.tile = 63, w = 2, h = 1\<rparr> =
     Inr ([63, 64], \<lparr>TileIterator.tile = INVALID_TILE, w = 2, rowdiff = 63, x = 0, y = 0\<rparr>)"
    by (simp add: TILE_AREA_LOOP_def OrthogonalTileIterator_init_def TileDiffXY_def iterate_done
        iterate_unfold n operator_incr_def OrthogonalTileIterator_Next_def)
  have c: "\<not> inside_area \<lparr>MapSizeX = 64, MapSizeY = 64\<rparr> \<lparr>TileArea.tile = 63, w = 2, h = 1\<rparr> 64"
    by (simp add: inside_area_def TileX_def TileY_def)
  from a b c show ?thesis by (simp add: TileX_def TileY_def)
qed


text \<open>
  Claim C1, amended. On a map of at most \<open>2 ^ 31\<close> cells, for every area of positive
  width \<open>W\<close> and height \<open>H\<close> whose rectangle lies on the map, the traversal of
  \<^verbatim>\<open>TILE_AREA_LOOP\<close> ends without a failed assertion with the current tile invalid,
  having visited the cells of the rectangle in row-major order: \<open>W * H\<close> tiles, no tile
  twice, and exactly the tiles inside the area.
\<close>

theorem orthogonal_iteration_row_major:
  assumes "map_ok md" "area_on_map md ta" "TileArea.w ta \<noteq> 0" "h ta \<noteq> 0"
  shows "(\<exists>fin. TILE_AREA_LOOP md ta = Inr (area_cells md ta, fin) \<and> current fin = INVALID_TILE) \<and>
         length (area_cells md ta) = unat (TileArea.w ta) * unat (h ta) \<and>
         distinct (area_cells md ta) \<and>
         set (area_cells md ta) = {t. inside_area md ta t}"
  using loop_visits_area_cells[OF assms] length_area_cells[of md ta]
    distinct_area_cells[OF assms(1,2)] set_area_cells[OF assms(1,2)]
  by (simp only: simp_thms)


theorem orthogonal_iteration_row_major_witness:
  "map_ok \<lparr>MapSizeX = 64, MapSizeY = 64\<rparr> \<and>
   area_on_map \<lparr>MapSizeX = 64, MapSizeY = 64\<rparr> \<lparr>TileArea.tile = 194, w = 4, h = 2\<rparr> \<and>
   (\<exists>fin. TILE_AREA_LOOP \<lparr>MapSizeX = 64, MapSizeY = 64\<rparr> \<lparr>TileArea.tile = 194, w = 4, h = 2\<rparr> =
      Inr ([194, 195, 196, 197, 258, 259, 260, 261], fin) \<and> current fin = INVALID_TILE)"
proof -
  let ?md = "\<lparr>MapSizeX = 64, MapSizeY = 64\<rparr>"
  let ?ta = "\<lparr>TileArea.tile = 194, w = 4, h = 2\<rparr>"
  have m: "map_ok ?md" by (simp add: map_ok_def)
  have a: "area_on_map ?md ?ta"
    by (simp add: area_on_map_def tile_on_map_def TileX_def TileY_def)
  have w: "TileArea.w ?ta \<noteq> 0" and h: "h ?ta \<noteq> 0" by simp_all
  have c: "area_cells ?md ?ta = [194, 195, 196, 197, 258, 259, 260, 261]"
    by (simp add: area_cells_def TileX_def TileY_def TileXY_def upt_conv_Cons)
  from orthogonal_iteration_row_major[OF m a w h] m a c show ?thesis
    by (simp only: simp_thms)
qed

end
